theory Spec2Isabelle
  imports Complex_Main "HOL-Library.Word"
begin

unbundle bit_operations_syntax

section \<open>The offline recommendation engine (class OfflineRecommendationEngine)\<close>

text \<open>
  A shallow embedding of the TypeScript class \<^verbatim>\<open>OfflineRecommendationEngine\<close>.

  \<^item> A JavaScript string is a sequence of UTF-16 code units. A \<open>string\<close> of this theory
    stands for a JavaScript string whose code units are all below 256, one \<open>char\<close> per
    code unit.
  \<^item> A JavaScript \<^verbatim>\<open>number\<close> that holds a count, an index or a page number is an \<open>int\<close>
    or a \<open>nat\<close>; a number that holds a weight or a score is a \<open>real\<close>: the arithmetic
    on weights and scores is exact there, where the program rounds to IEEE doubles. The
    score is also defined on doubles, with the rounding of the program, in a part of
    its own.
  \<^item> A \<^verbatim>\<open>Map\<close> is an association list in insertion order: \<^verbatim>\<open>Map.set\<close> on a key that
    is present replaces the value where it stands, on a new key it appends.
\<close>

subsection \<open>Data\<close>

record PageEmbedding =
  pageNumber :: int
  page_text :: string
  embedding :: "real list"
  page_keywords :: "string list"

record DocumentEmbedding =
  doc_id :: string
  doc_name :: string
  pageEmbeddings :: "PageEmbedding list"

text \<open>The fields of \<^verbatim>\<open>PDFDocument\<close> that \<^verbatim>\<open>addDocument\<close> reads.\<close>

record PDFDocument =
  pdf_id :: string
  pdf_name :: string

record Position =
  pos_x :: int
  pos_y :: int
  pos_width :: int
  pos_height :: int

record RelatedSection =
  section_id :: string
  documentId :: string
  documentName :: string
  section_pageNumber :: int
  content :: string
  snippet :: string
  relevanceScore :: real
  position :: Position

subsection \<open>Maps in insertion order\<close>

text \<open>\<^verbatim>\<open>Map.get\<close> and \<^verbatim>\<open>Map.set\<close>.\<close>

fun map_get :: "('k \<times> 'v) list \<Rightarrow> 'k \<Rightarrow> 'v option" where
  "map_get [] k = None"
| "map_get ((k', v) # m) k = (if k' = k then Some v else map_get m k)"

fun map_set :: "('k \<times> 'v) list \<Rightarrow> 'k \<Rightarrow> 'v \<Rightarrow> ('k \<times> 'v) list" where
  "map_set [] k v = [(k, v)]"
| "map_set ((k', v') # m) k v = (if k' = k then (k, v) # m else (k', v') # map_set m k v)"

subsection \<open>Tokens\<close>

text \<open>\<^verbatim>\<open>String.prototype.toLowerCase\<close> on code units below 256: the letters A to Z, and
  the Latin-1 capitals 192 to 222 but the multiplication sign 215, move up by 32.\<close>

definition toLowerCase_char :: "char \<Rightarrow> char" where
  "toLowerCase_char c =
     (let n = (of_char c :: nat)
      in if (65 \<le> n \<and> n \<le> 90) \<or> (192 \<le> n \<and> n \<le> 222 \<and> n \<noteq> 215)
         then char_of (n + 32) else c)"

definition toLowerCase :: "string \<Rightarrow> string" where
  "toLowerCase s = map toLowerCase_char s"

text \<open>The class \<^verbatim>\<open>\w\<close>: a letter, a digit or the underscore.\<close>

definition is_word_char :: "char \<Rightarrow> bool" where
  "is_word_char c =
     (let n = (of_char c :: nat)
      in (48 \<le> n \<and> n \<le> 57) \<or> (65 \<le> n \<and> n \<le> 90) \<or> n = 95 \<or> (97 \<le> n \<and> n \<le> 122))"

text \<open>\<^verbatim>\<open>s.match(/\b\w+\b/g) || []\<close>: the maximal runs of word characters of \<open>s\<close>, from
  left to right. The first argument is the run being read.\<close>

fun word_runs :: "string \<Rightarrow> string \<Rightarrow> string list" where
  "word_runs run [] = (if run = [] then [] else [run])"
| "word_runs run (c # cs) =
     (if is_word_char c then word_runs (run @ [c]) cs
      else if run = [] then word_runs [] cs
      else run # word_runs [] cs)"

definition match_words :: "string \<Rightarrow> string list" where
  "match_words s = word_runs [] s"

text \<open>\<^verbatim>\<open>s.match(/\b\w{4,}\b/g) || []\<close>: a run shorter than four characters has no match,
  since \<^verbatim>\<open>\b\<close> holds only at its two ends.\<close>

definition match_long_words :: "string \<Rightarrow> string list" where
  "match_long_words s = filter (\<lambda>w. 4 \<le> length w) (word_runs [] s)"

subsection \<open>simpleHash\<close>

text \<open>
  \<^verbatim>\<open>hash = ((hash << 5) - hash) + char; hash = hash & hash;\<close>
  The shift and the \<^verbatim>\<open>&\<close> work on 32-bit integers, the subtraction and the addition
  between them are exact (their result is below \<open>2 ^ 34\<close> in size), and \<^verbatim>\<open>&\<close> wraps
  it to 32 bits again: the step is arithmetic on \<open>32 word\<close>. \<^verbatim>\<open>Math.abs\<close> is taken on
  the signed value, as a number, so it does not wrap.
\<close>

definition hash_step :: "32 word \<Rightarrow> char \<Rightarrow> 32 word" where
  "hash_step hash c = (let h = (push_bit 5 hash - hash) + of_nat (of_char c) in h AND h)"

definition simpleHash :: "string \<Rightarrow> int" where
  "simpleHash str = \<bar>sint (foldl hash_step 0 str)\<bar>"

subsection \<open>generateSimpleEmbedding\<close>

text \<open>\<^verbatim>\<open>wordCount.set(word, (wordCount.get(word) || 0) + 1)\<close>\<close>

definition count_word :: "(string \<times> nat) list \<Rightarrow> string \<Rightarrow> (string \<times> nat) list" where
  "count_word wordCount word =
     map_set wordCount word ((case map_get wordCount word of None \<Rightarrow> 0 | Some n \<Rightarrow> n) + 1)"

definition count_words :: "string list \<Rightarrow> (string \<times> nat) list" where
  "count_words words =
     foldl (\<lambda>wordCount word. if length word > 2 then count_word wordCount word else wordCount)
       [] words"

text \<open>\<^verbatim>\<open>this.simpleHash(word) % 100\<close>, on a hash that is not negative.\<close>

definition bucket_of :: "string \<Rightarrow> nat" where
  "bucket_of word = nat (simpleHash word mod 100)"

text \<open>The loop over \<^verbatim>\<open>wordCount.entries()\<close>; \<open>n_words\<close> is \<^verbatim>\<open>words.length\<close> and \<open>index\<close>
  the counter of the loop.\<close>

fun embed_loop :: "nat \<Rightarrow> (string \<times> nat) list \<Rightarrow> nat \<Rightarrow> real list \<Rightarrow> real list" where
  "embed_loop n_words [] index emb = emb"
| "embed_loop n_words ((word, count) # rest) index emb =
     (let hash = bucket_of word;
          emb' = emb[hash := emb ! hash + real count / real n_words];
          index' = index + 1
      in if index' > 50 then emb' else embed_loop n_words rest index' emb')"

definition generateSimpleEmbedding :: "string \<Rightarrow> real list" where
  "generateSimpleEmbedding txt =
     (let words = match_words (toLowerCase txt);
          wordCount = count_words words
      in embed_loop (length words) wordCount 0 (replicate 100 0))"

subsection \<open>extractKeywords\<close>

definition isStopWord :: "string \<Rightarrow> bool" where
  "isStopWord word = (word \<in> set
     [''the'', ''a'', ''an'', ''and'', ''or'', ''but'', ''in'', ''on'', ''at'', ''to'', ''for'',
      ''of'', ''with'', ''by'', ''this'', ''that'', ''these'', ''those'', ''is'', ''are'',
      ''was'', ''were'', ''be'', ''been'', ''have'', ''has'', ''had'', ''will'', ''would'',
      ''could'', ''should''])"

definition count_frequency :: "string list \<Rightarrow> (string \<times> nat) list" where
  "count_frequency words =
     foldl (\<lambda>frequency word. if \<not> isStopWord word then count_word frequency word else frequency)
       [] words"

text \<open>\<^verbatim>\<open>entries.sort((a, b) => b[1] - a[1])\<close>: a stable sort, the greater count first.\<close>

definition sort_by_count :: "(string \<times> nat) list \<Rightarrow> (string \<times> nat) list" where
  "sort_by_count entries = sort_key (\<lambda>e. - int (snd e)) entries"

definition extractKeywords :: "string \<Rightarrow> string list" where
  "extractKeywords txt =
     (let words = match_long_words (toLowerCase txt);
          frequency = count_frequency words
      in map fst (take 10 (sort_by_count frequency)))"

subsection \<open>calculateSimilarity\<close>

text \<open>
  The loop runs over the indices of \<open>embedding1\<close>. Where \<open>embedding2\<close> is the shorter
  one, \<^verbatim>\<open>embedding2[i]\<close> is \<^verbatim>\<open>undefined\<close> and \<^verbatim>\<open>dotProduct\<close> and \<^verbatim>\<open>norm2\<close> become
  \<^verbatim>\<open>NaN\<close>: the result \<open>None\<close>.
\<close>

fun similarity_loop ::
  "real list \<Rightarrow> real list \<Rightarrow> real \<times> real \<times> real \<Rightarrow> (real \<times> real \<times> real) option" where
  "similarity_loop [] ys acc = Some acc"
| "similarity_loop (x # xs) [] acc = None"
| "similarity_loop (x # xs) (y # ys) (dotProduct, norm1, norm2) =
     similarity_loop xs ys (dotProduct + x * y, norm1 + x * x, norm2 + y * y)"

text \<open>\<^verbatim>\<open>norm1 && norm2 ? dotProduct / (Math.sqrt(norm1) * Math.sqrt(norm2)) : 0\<close>, where
  \<^verbatim>\<open>NaN\<close> and \<open>0\<close> count as false.\<close>

definition cosineSim :: "real list \<Rightarrow> real list \<Rightarrow> real" where
  "cosineSim embedding1 embedding2 =
     (case similarity_loop embedding1 embedding2 (0, 0, 0) of
        None \<Rightarrow> 0
      | Some (dotProduct, norm1, norm2) \<Rightarrow>
          if norm1 \<noteq> 0 \<and> norm2 \<noteq> 0 then dotProduct / (sqrt norm1 * sqrt norm2) else 0)"

text \<open>\<^verbatim>\<open>Math.max(keywords1.length, keywords2.length, 1)\<close>\<close>

definition keyword_divisor :: "string list \<Rightarrow> string list \<Rightarrow> nat" where
  "keyword_divisor keywords1 keywords2 = max (length keywords1) (max (length keywords2) 1)"

definition keywordSim :: "string list \<Rightarrow> string list \<Rightarrow> real" where
  "keywordSim keywords1 keywords2 =
     (let overlap = length (filter (\<lambda>k. k \<in> set keywords2) keywords1)
      in real overlap / real (keyword_divisor keywords1 keywords2))"

definition calculateSimilarity ::
  "real list \<Rightarrow> real list \<Rightarrow> string list \<Rightarrow> string list \<Rightarrow> real" where
  "calculateSimilarity embedding1 embedding2 keywords1 keywords2 =
     cosineSim embedding1 embedding2 * 0.7 + keywordSim keywords1 keywords2 * 0.3"

subsection \<open>The engine and the storage\<close>

text \<open>
  What \<^verbatim>\<open>localStorage\<close> holds under the key \<^verbatim>\<open>offline_documents\<close>, by what
  \<^verbatim>\<open>initialize\<close> does with it:
  \<^item> \<open>NoItem\<close>: \<^verbatim>\<open>getItem\<close> gives \<^verbatim>\<open>null\<close> (or the empty string), the test
    \<^verbatim>\<open>if (storedDocs)\<close> fails;
  \<^item> \<open>Unparsable\<close>: a string on which \<^verbatim>\<open>JSON.parse\<close> throws;
  \<^item> \<open>NotAnArray\<close>: JSON of a value that has no \<^verbatim>\<open>forEach\<close>, the call throws;
  \<^item> \<open>DocArray ds\<close>: JSON of an array; \<open>Some d\<close> is an element of the shape of a
    \<^verbatim>\<open>DocumentEmbedding\<close>, \<open>None\<close> the element \<^verbatim>\<open>null\<close>, on which \<^verbatim>\<open>doc.id\<close> throws.
  \<^verbatim>\<open>JSON.stringify\<close> of the documents followed by \<^verbatim>\<open>JSON.parse\<close> gives the documents
  back.
\<close>

datatype stored_item =
    NoItem
  | Unparsable
  | NotAnArray
  | DocArray "DocumentEmbedding option list"

text \<open>The fields of the engine, the stored item, and whether \<^verbatim>\<open>localStorage.setItem\<close>
  throws (the quota is exceeded).\<close>

record engine =
  documents :: "(string \<times> DocumentEmbedding) list"
  isInitialized :: bool
  localStorage :: stored_item
  setItem_throws :: bool

definition new_engine :: "stored_item \<Rightarrow> bool \<Rightarrow> engine" where
  "new_engine item throws =
     \<lparr>documents = [], isInitialized = False, localStorage = item, setItem_throws = throws\<rparr>"

text \<open>\<^verbatim>\<open>parsed.forEach(doc => this.documents.set(doc.id, doc))\<close>: the documents set so
  far, and whether the loop ran to its end without throwing.\<close>

fun load_docs ::
  "DocumentEmbedding option list \<Rightarrow> (string \<times> DocumentEmbedding) list
     \<Rightarrow> (string \<times> DocumentEmbedding) list \<times> bool" where
  "load_docs [] docs = (docs, True)"
| "load_docs (None # rest) docs = (docs, False)"
| "load_docs (Some doc # rest) docs = load_docs rest (map_set docs (doc_id doc) doc)"

text \<open>The \<^verbatim>\<open>catch\<close> block logs and returns: \<open>isInitialized\<close> is set only at the end of
  the \<^verbatim>\<open>try\<close> block.\<close>

definition initialize :: "engine \<Rightarrow> engine" where
  "initialize s =
     (if isInitialized s then s
      else case localStorage s of
          NoItem \<Rightarrow> s\<lparr>isInitialized := True\<rparr>
        | Unparsable \<Rightarrow> s
        | NotAnArray \<Rightarrow> s
        | DocArray parsed \<Rightarrow>
            (case load_docs parsed (documents s) of
               (docs, True) \<Rightarrow> s\<lparr>documents := docs, isInitialized := True\<rparr>
             | (docs, False) \<Rightarrow> s\<lparr>documents := docs\<rparr>))"

definition saveToStorage :: "engine \<Rightarrow> engine" where
  "saveToStorage s =
     (if setItem_throws s then s
      else s\<lparr>localStorage := DocArray (map (\<lambda>(k, doc). Some doc) (documents s))\<rparr>)"

text \<open>\<^verbatim>\<open>textContent.map((text, index) => ...)\<close>\<close>

definition make_page :: "nat \<times> string \<Rightarrow> PageEmbedding" where
  "make_page p =
     (case p of (index, txt) \<Rightarrow>
        \<lparr>pageNumber = int index + 1,
         page_text = take 1000 txt,
         embedding = generateSimpleEmbedding txt,
         page_keywords = extractKeywords txt\<rparr>)"

definition addDocument :: "PDFDocument \<Rightarrow> string list \<Rightarrow> engine \<Rightarrow> engine" where
  "addDocument document textContent s =
     (let emb = \<lparr>doc_id = pdf_id document,
                 doc_name = pdf_name document,
                 pageEmbeddings = map make_page (enumerate 0 textContent)\<rparr>
      in saveToStorage (s\<lparr>documents := map_set (documents s) (pdf_id document) emb\<rparr>))"

definition clearStorage :: "engine \<Rightarrow> engine" where
  "clearStorage s = s\<lparr>documents := [], localStorage := NoItem\<rparr>"

definition getDocumentCount :: "engine \<Rightarrow> nat" where
  "getDocumentCount s = length (documents s)"

subsection \<open>findRelatedSections\<close>

text \<open>A number in a template string, for the integers.\<close>

function string_of_nat :: "nat \<Rightarrow> string" where
  "string_of_nat n =
     (if n < 10 then [char_of (48 + n)]
      else string_of_nat (n div 10) @ [char_of (48 + n mod 10)])"
  by pat_completeness auto
termination
  by (relation "measure (\<lambda>n. n)") auto

declare string_of_nat.simps [simp del]

definition string_of_int :: "int \<Rightarrow> string" where
  "string_of_int i =
     (if i < 0 then CHR ''-'' # string_of_nat (nat (- i)) else string_of_nat (nat i))"

text \<open>\<^verbatim>\<open>xs[i]\<close> for a number \<open>i\<close>: \<^verbatim>\<open>undefined\<close> out of range.\<close>

definition array_get :: "'a list \<Rightarrow> int \<Rightarrow> 'a option" where
  "array_get xs i = (if 0 \<le> i \<and> i < int (length xs) then Some (xs ! nat i) else None)"

text \<open>\<^verbatim>\<open>selectedText || currentDoc.pageEmbeddings[currentPage - 1]?.text || ''\<close>: an
  absent and an empty \<^verbatim>\<open>selectedText\<close> are both false.\<close>

definition resolve_query :: "DocumentEmbedding \<Rightarrow> int \<Rightarrow> string option \<Rightarrow> string" where
  "resolve_query currentDoc currentPage selectedText =
     (case selectedText of
        Some t \<Rightarrow> if t \<noteq> [] then t
                  else (case array_get (pageEmbeddings currentDoc) (currentPage - 1) of
                          None \<Rightarrow> [] | Some page \<Rightarrow> page_text page)
      | None \<Rightarrow> (case array_get (pageEmbeddings currentDoc) (currentPage - 1) of
                   None \<Rightarrow> [] | Some page \<Rightarrow> page_text page))"

definition make_section ::
  "string \<Rightarrow> DocumentEmbedding \<Rightarrow> PageEmbedding \<Rightarrow> real \<Rightarrow> RelatedSection" where
  "make_section docId doc page similarity =
     \<lparr>section_id = docId @ ''-'' @ string_of_int (pageNumber page),
      documentId = docId,
      documentName = doc_name doc,
      section_pageNumber = pageNumber page,
      content = page_text page,
      snippet = take 150 (page_text page) @ ''...'',
      relevanceScore = similarity,
      position = \<lparr>pos_x = 0, pos_y = 0, pos_width = 100, pos_height = 20\<rparr>\<rparr>"

text \<open>The body of the inner loop: what one page pushes onto \<^verbatim>\<open>relatedSections\<close>.\<close>

definition scan_page ::
  "string \<Rightarrow> int \<Rightarrow> real list \<Rightarrow> string list \<Rightarrow> string \<Rightarrow> DocumentEmbedding \<Rightarrow> PageEmbedding
     \<Rightarrow> (RelatedSection \<times> real) list" where
  "scan_page currentDocId currentPage queryEmbedding queryKeywords docId doc page =
     (if docId = currentDocId \<and> pageNumber page = currentPage then []
      else let similarity = calculateSimilarity queryEmbedding (embedding page)
                              queryKeywords (page_keywords page)
           in if similarity > 0.3 then [(make_section docId doc page similarity, similarity)]
              else [])"

definition scan_documents ::
  "string \<Rightarrow> int \<Rightarrow> real list \<Rightarrow> string list \<Rightarrow> (string \<times> DocumentEmbedding) list
     \<Rightarrow> (RelatedSection \<times> real) list" where
  "scan_documents currentDocId currentPage queryEmbedding queryKeywords docs =
     concat (map (\<lambda>(docId, doc).
                concat (map (scan_page currentDocId currentPage queryEmbedding queryKeywords
                               docId doc)
                          (pageEmbeddings doc)))
             docs)"

text \<open>\<^verbatim>\<open>.sort((a, b) => b.score - a.score).slice(0, 5).map(item => item.section)\<close>: the
  sort is stable, the greater score first.\<close>

definition top_sections :: "(RelatedSection \<times> real) list \<Rightarrow> RelatedSection list" where
  "top_sections relatedSections = map fst (take 5 (sort_key (\<lambda>item. - snd item) relatedSections))"

text \<open>The search for a query text, from the extraction of its features on.\<close>

definition search_sections ::
  "(string \<times> DocumentEmbedding) list \<Rightarrow> string \<Rightarrow> int \<Rightarrow> string \<Rightarrow> RelatedSection list" where
  "search_sections docs currentDocId currentPage queryText =
     (let queryEmbedding = generateSimpleEmbedding queryText;
          queryKeywords = extractKeywords queryText
      in top_sections
           (scan_documents currentDocId currentPage queryEmbedding queryKeywords docs))"

text \<open>The result and the engine after the call, which may have loaded the stored
  documents.\<close>

definition findRelatedSections ::
  "string \<Rightarrow> int \<Rightarrow> string option \<Rightarrow> engine \<Rightarrow> RelatedSection list \<times> engine" where
  "findRelatedSections currentDocId currentPage selectedText s =
     (let s' = initialize s
      in case map_get (documents s') currentDocId of
           None \<Rightarrow> ([], s')
         | Some currentDoc \<Rightarrow>
             (search_sections (documents s') currentDocId currentPage
                (resolve_query currentDoc currentPage selectedText), s'))"

subsection \<open>The score in double precision\<close>

text \<open>
  The numbers of the program are IEEE 754 doubles. The definitions above compute the
  weights and the score exactly; the definitions of this part compute the score as the
  program does, with every operation rounded to the nearest double, ties to the even
  significand of 53 bits.

  \<open>Dbl m e\<close> is the double \<open>m * 2 ^ e\<close>: zero is \<open>Dbl 0 0\<close>, and for every other double
  the size of \<open>m\<close> lies in \<open>[2 ^ 52, 2 ^ 53)\<close>. \<open>Outside\<close> stands for the values that this
  part does not follow further: the infinities and the subnormal numbers, and whatever
  is computed from them. The sign of a zero is left out.
\<close>

datatype dbl = Dbl int int | NaN | Outside

text \<open>The number of binary digits of a positive integer.\<close>

function bit_length :: "int \<Rightarrow> int" where
  "bit_length n = (if n \<le> 0 then 0 else 1 + bit_length (n div 2))"
  by pat_completeness auto
termination
  by (relation "measure nat") auto

declare bit_length.simps [simp del]

text \<open>The integer nearest to \<open>n / 2 ^ k\<close> for \<open>n \<ge> 0\<close> and \<open>k > 0\<close>, the even one of
  two.\<close>

definition round_shift :: "int \<Rightarrow> nat \<Rightarrow> int" where
  "round_shift n k =
     (let q = n div 2 ^ k; r = n mod 2 ^ k; half = 2 ^ (k - 1)
      in if half < r \<or> (r = half \<and> odd q) then q + 1 else q)"

text \<open>The double with the sign \<open>sg\<close> and the size \<open>m * 2 ^ e\<close>, for a significand \<open>m\<close> from
  \<open>2 ^ 52\<close> to \<open>2 ^ 53\<close>, where it is a normal double: its size lies in
  \<open>[2 ^ - 1022, 2 ^ 1024)\<close>.\<close>

definition make_dbl :: "int \<Rightarrow> int \<Rightarrow> int \<Rightarrow> dbl" where
  "make_dbl sg m e =
     (if m = 9007199254740992
      then (if - 1022 \<le> e + 53 \<and> e + 53 \<le> 1023 then Dbl (sg * 4503599627370496) (e + 1) else Outside)
      else (if - 1022 \<le> e + 52 \<and> e + 52 \<le> 1023 then Dbl (sg * m) e else Outside))"

text \<open>The double nearest to \<open>n * 2 ^ e\<close>, for an integer \<open>n\<close> of \<open>len\<close> binary digits: a
  short \<open>n\<close> is filled up with zeros, a long one is rounded to 53 digits.\<close>

definition round_digits :: "int \<Rightarrow> int \<Rightarrow> int \<Rightarrow> int \<Rightarrow> dbl" where
  "round_digits sg n len e =
     (if len \<le> 53 then make_dbl sg (n * 2 ^ nat (53 - len)) (e - (53 - len))
      else make_dbl sg (round_shift n (nat (len - 53))) (e + (len - 53)))"

definition round_int :: "int \<Rightarrow> int \<Rightarrow> dbl" where
  "round_int n e =
     (if n = 0 then Dbl 0 0
      else round_digits (if n < 0 then - 1 else 1) \<bar>n\<bar> (bit_length \<bar>n\<bar>) e)"

text \<open>The double nearest to \<open>n / d * 2 ^ e\<close> for positive \<open>n\<close> and \<open>d\<close>: the quotient of
  \<open>n * 2 ^ k\<close> by \<open>d\<close> has more than 55 digits, and one more digit after them says whether
  the division left a remainder, so that rounding the digits rounds the fraction.\<close>

definition with_sticky :: "int \<Rightarrow> int \<Rightarrow> int" where
  "with_sticky q r = 2 * q + (if r = 0 then 0 else 1)"

definition round_quotient :: "int \<Rightarrow> int \<Rightarrow> int \<Rightarrow> nat \<Rightarrow> int \<Rightarrow> dbl" where
  "round_quotient sg n d k e =
     round_int (sg * with_sticky ((n * 2 ^ k) div d) ((n * 2 ^ k) mod d)) (e - int k - 1)"

text \<open>The integer square root, bit by bit from the top: \<open>b\<close> is the bit that is tried,
  a power of two.\<close>

function top_bit :: "int \<Rightarrow> int \<Rightarrow> int" where
  "top_bit b n = (if b \<le> 0 \<or> n < b then b else top_bit (2 * b) n)"
  by pat_completeness auto
termination
  by (relation "measure (\<lambda>(b, n). nat (n + 1 - b))") auto

declare top_bit.simps [simp del]

function isqrt_loop :: "int \<Rightarrow> int \<Rightarrow> int \<Rightarrow> int" where
  "isqrt_loop b n s =
     (if b \<le> 0 then s
      else isqrt_loop (b div 2) n (if (s + b) * (s + b) \<le> n then s + b else s))"
  by pat_completeness auto
termination
  by (relation "measure (\<lambda>(b, n, s). nat b)") auto

declare isqrt_loop.simps [simp del]

definition isqrt :: "int \<Rightarrow> int" where
  "isqrt n = isqrt_loop (top_bit 1 n) n 0"

text \<open>The double nearest to the square root of \<open>n * 2 ^ (2 * e)\<close>: the root \<open>s\<close> of \<open>n\<close> has
  more than 55 digits, and one more digit says whether \<open>n\<close> is more than the square of
  \<open>s\<close>.\<close>

definition round_root :: "int \<Rightarrow> int \<Rightarrow> int \<Rightarrow> dbl" where
  "round_root n s e = round_int (with_sticky s (n - s * s)) (e - 1)"

fun dbl_add :: "dbl \<Rightarrow> dbl \<Rightarrow> dbl" where
  "dbl_add (Dbl m1 e1) (Dbl m2 e2) =
     (if e1 \<le> e2 then round_int (m1 + m2 * 2 ^ nat (e2 - e1)) e1
      else round_int (m1 * 2 ^ nat (e1 - e2) + m2) e2)"
| "dbl_add Outside b = Outside"
| "dbl_add a Outside = Outside"
| "dbl_add a b = NaN"

fun dbl_mul :: "dbl \<Rightarrow> dbl \<Rightarrow> dbl" where
  "dbl_mul (Dbl m1 e1) (Dbl m2 e2) = round_int (m1 * m2) (e1 + e2)"
| "dbl_mul Outside b = Outside"
| "dbl_mul a Outside = Outside"
| "dbl_mul a b = NaN"

text \<open>A division by zero gives an infinity, or \<^verbatim>\<open>NaN\<close> for \<open>0 / 0\<close>.\<close>

fun dbl_div :: "dbl \<Rightarrow> dbl \<Rightarrow> dbl" where
  "dbl_div (Dbl m1 e1) (Dbl m2 e2) =
     (if m2 = 0 then (if m1 = 0 then NaN else Outside)
      else if m1 = 0 then Dbl 0 0
      else round_quotient (if (m1 < 0) = (m2 < 0) then 1 else - 1) \<bar>m1\<bar> \<bar>m2\<bar> 56 (e1 - e2))"
| "dbl_div Outside b = Outside"
| "dbl_div a Outside = Outside"
| "dbl_div a b = NaN"

text \<open>\<^verbatim>\<open>Math.sqrt\<close>, correctly rounded. The significand is moved up by 58 or 59 digits,
  so that the exponent left is even.\<close>

fun dbl_sqrt :: "dbl \<Rightarrow> dbl" where
  "dbl_sqrt (Dbl m e) =
     (if m = 0 then Dbl 0 0
      else if m < 0 then NaN
      else if even e then round_root (m * 2 ^ 58) (isqrt (m * 2 ^ 58)) ((e - 58) div 2)
      else round_root (m * 2 ^ 59) (isqrt (m * 2 ^ 59)) ((e - 59) div 2))"
| "dbl_sqrt NaN = NaN"
| "dbl_sqrt Outside = Outside"

text \<open>An integer as a double, and the quotient of two integers as a double: a count
  and \<^verbatim>\<open>count / words.length\<close>, and the literals \<^verbatim>\<open>0.7\<close> and \<^verbatim>\<open>0.3\<close>, which are
  the doubles nearest to \<open>7 / 10\<close> and \<open>3 / 10\<close>.\<close>

definition dbl_of_int :: "int \<Rightarrow> dbl" where
  "dbl_of_int n = round_int n 0"

definition dbl_ratio :: "int \<Rightarrow> int \<Rightarrow> dbl" where
  "dbl_ratio n d = dbl_div (dbl_of_int n) (dbl_of_int d)"

text \<open>The loop of \<open>calculateSimilarity\<close>: past the end of \<open>embedding2\<close> the factor
  \<^verbatim>\<open>embedding2[i]\<close> is \<^verbatim>\<open>undefined\<close> and the products with it are \<^verbatim>\<open>NaN\<close>.\<close>

fun similarity_loop_double ::
  "dbl list \<Rightarrow> dbl list \<Rightarrow> dbl \<times> dbl \<times> dbl \<Rightarrow> dbl \<times> dbl \<times> dbl" where
  "similarity_loop_double [] ys acc = acc"
| "similarity_loop_double (x # xs) [] (dotProduct, norm1, norm2) =
     similarity_loop_double xs []
       (dbl_add dotProduct NaN, dbl_add norm1 (dbl_mul x x), dbl_add norm2 NaN)"
| "similarity_loop_double (x # xs) (y # ys) (dotProduct, norm1, norm2) =
     similarity_loop_double xs ys
       (dbl_add dotProduct (dbl_mul x y), dbl_add norm1 (dbl_mul x x),
        dbl_add norm2 (dbl_mul y y))"

text \<open>\<^verbatim>\<open>norm1 && norm2 ? dotProduct / (Math.sqrt(norm1) * Math.sqrt(norm2)) : 0\<close>: zero and
  \<^verbatim>\<open>NaN\<close> are false.\<close>

fun cosine_of :: "dbl \<times> dbl \<times> dbl \<Rightarrow> dbl" where
  "cosine_of (dotProduct, norm1, norm2) =
     (if norm1 = Outside then Outside
      else if norm1 = NaN \<or> norm1 = Dbl 0 0 then Dbl 0 0
      else if norm2 = Outside then Outside
      else if norm2 = NaN \<or> norm2 = Dbl 0 0 then Dbl 0 0
      else dbl_div dotProduct (dbl_mul (dbl_sqrt norm1) (dbl_sqrt norm2)))"

definition cosineSim_double :: "dbl list \<Rightarrow> dbl list \<Rightarrow> dbl" where
  "cosineSim_double embedding1 embedding2 =
     cosine_of (similarity_loop_double embedding1 embedding2 (Dbl 0 0, Dbl 0 0, Dbl 0 0))"

definition keywordSim_double :: "string list \<Rightarrow> string list \<Rightarrow> dbl" where
  "keywordSim_double keywords1 keywords2 =
     dbl_ratio (int (length (filter (\<lambda>k. k \<in> set keywords2) keywords1)))
               (int (keyword_divisor keywords1 keywords2))"

definition calculateSimilarity_double ::
  "dbl list \<Rightarrow> dbl list \<Rightarrow> string list \<Rightarrow> string list \<Rightarrow> dbl" where
  "calculateSimilarity_double embedding1 embedding2 keywords1 keywords2 =
     dbl_add (dbl_mul (cosineSim_double embedding1 embedding2) (dbl_ratio 7 10))
             (dbl_mul (keywordSim_double keywords1 keywords2) (dbl_ratio 3 10))"

text \<open>The rational number that a double stands for.\<close>

definition dbl_value :: "dbl \<Rightarrow> rat option" where
  "dbl_value x =
     (case x of
        Dbl m e \<Rightarrow> Some (if 0 \<le> e then of_int (m * 2 ^ nat e) else of_int m / of_int (2 ^ nat (- e)))
      | NaN \<Rightarrow> None
      | Outside \<Rightarrow> None)"

subsection \<open>Sample inputs\<close>

definition sample_doc_A :: PDFDocument where
  "sample_doc_A = \<lparr>pdf_id = ''A'', pdf_name = ''a.pdf''\<rparr>"

definition sample_stored_doc :: DocumentEmbedding where
  "sample_stored_doc = \<lparr>doc_id = ''A'', doc_name = ''a.pdf'', pageEmbeddings = []\<rparr>"

text \<open>White space of JavaScript among the code units below 256: tab, line feed,
  vertical tab, form feed, carriage return, space and no-break space.\<close>

definition is_whitespace :: "char \<Rightarrow> bool" where
  "is_whitespace c = (of_char c \<in> {9, 10, 11, 12, 13, 32, 160 :: nat})"

text \<open>A text of 52 different words of three letters.\<close>

definition tokens52 :: "string list" where
  "tokens52 =
     [''aaa'', ''aab'', ''aac'', ''aad'', ''aae'', ''aaf'', ''aag'', ''aah'', ''aai'',
      ''aaj'', ''aak'', ''aal'', ''aam'', ''aan'', ''aao'', ''aap'', ''aaq'', ''aar'',
      ''aas'', ''aat'', ''aau'', ''aav'', ''aaw'', ''aax'', ''aay'', ''aaz'', ''aba'',
      ''abb'', ''abc'', ''abd'', ''abe'', ''abf'', ''abg'', ''abh'', ''abi'', ''abj'',
      ''abk'', ''abl'', ''abm'', ''abn'', ''abo'', ''abp'', ''abq'', ''abr'', ''abs'',
      ''abt'', ''abu'', ''abv'', ''abw'', ''abx'', ''aby'', ''abz'']"

definition text52 :: string where
  "text52 =
     ''aaa aab aac aad aae aaf aag aah aai aaj aak aal aam '' @
     ''aan aao aap aaq aar aas aat aau aav aaw aax aay aaz '' @
     ''aba abb abc abd abe abf abg abh abi abj abk abl abm '' @
     ''abn abo abp abq abr abs abt abu abv abw abx aby abz''"

text \<open>An engine with two documents: \<open>A\<close> with the pages \<open>data\<close> and \<open>cat\<close>, and \<open>B\<close>
  with the page \<open>data\<close>.\<close>

definition sample_doc_B :: PDFDocument where
  "sample_doc_B = \<lparr>pdf_id = ''B'', pdf_name = ''b.pdf''\<rparr>"

definition sample_engine :: engine where
  "sample_engine =
     addDocument sample_doc_B [''data'']
       (addDocument sample_doc_A [''data'', ''cat''] (new_engine NoItem False))"

section \<open>Properties\<close>

subsection \<open>Maps and the stored document\<close>

lemma map_get_map_set_same: "map_get (map_set m k v) k = Some v"
  by (induction m) auto

lemma map_get_map_set_other: "k' \<noteq> k \<Longrightarrow> map_get (map_set m k v) k' = map_get m k'"
  by (induction m) auto

lemma documents_saveToStorage: "documents (saveToStorage s) = documents s"
  by (simp add: saveToStorage_def)

lemma documents_addDocument:
  "documents (addDocument d ts s) =
     map_set (documents s) (pdf_id d)
       \<lparr>doc_id = pdf_id d, doc_name = pdf_name d,
        pageEmbeddings = map make_page (enumerate 0 ts)\<rparr>"
  by (simp add: addDocument_def Let_def documents_saveToStorage)

lemma stored_addDocument:
  "map_get (documents (addDocument d ts s)) (pdf_id d) =
     Some \<lparr>doc_id = pdf_id d, doc_name = pdf_name d,
           pageEmbeddings = map make_page (enumerate 0 ts)\<rparr>"
  by (simp add: documents_addDocument map_get_map_set_same)

subsection \<open>addDocument\<close>

text \<open>
  C10. The document that \<open>addDocument document textContent\<close> stores has one page for each
  element of \<open>textContent\<close>, the page at position \<open>i\<close> (from 0) has page number \<open>i + 1\<close>,
  and the read \<^verbatim>\<open>pageEmbeddings[currentPage - 1]\<close> of \<open>findRelatedSections\<close> finds the
  page whose number is \<open>currentPage\<close>, for \<open>currentPage\<close> from 1 to the number of elements.
\<close>

theorem addDocument_page_positions:
  "\<exists>doc. map_get (documents (addDocument d ts s)) (pdf_id d) = Some doc
     \<and> length (pageEmbeddings doc) = length ts
     \<and> (\<forall>i < length ts. pageNumber (pageEmbeddings doc ! i) = int i + 1)
     \<and> (\<forall>currentPage. 1 \<le> currentPage \<and> currentPage \<le> int (length ts) \<longrightarrow>
           (\<exists>page. array_get (pageEmbeddings doc) (currentPage - 1) = Some page
              \<and> pageNumber page = currentPage))"
proof -
  let ?doc = "\<lparr>doc_id = pdf_id d, doc_name = pdf_name d,
                pageEmbeddings = map make_page (enumerate 0 ts)\<rparr>"
  have nth: "\<forall>i < length ts. pageNumber (pageEmbeddings ?doc ! i) = int i + 1"
    by (simp add: make_page_def nth_enumerate_eq)
  have look: "\<exists>page. array_get (pageEmbeddings ?doc) (currentPage - 1) = Some page
                \<and> pageNumber page = currentPage"
    if "1 \<le> currentPage" "currentPage \<le> int (length ts)" for currentPage
  proof -
    from that have "nat (currentPage - 1) < length ts" by linarith
    with that show ?thesis
      by (simp add: array_get_def make_page_def nth_enumerate_eq)
  qed
  show ?thesis
    using stored_addDocument [of d ts s] nth look by (intro exI [of _ ?doc]) simp
qed

text \<open>C10 at a document of two pages: the second page is found at position 1.\<close>

theorem addDocument_page_positions_witness:
  "\<exists>doc. map_get (documents (addDocument sample_doc_A [''data'', ''cat''] (new_engine NoItem False)))
            ''A'' = Some doc
     \<and> length (pageEmbeddings doc) = 2
     \<and> pageNumber (pageEmbeddings doc ! 1) = 2
     \<and> (\<exists>page. array_get (pageEmbeddings doc) 1 = Some page \<and> pageNumber page = 2)"
proof -
  obtain doc where
    stored: "map_get (documents (addDocument sample_doc_A [''data'', ''cat'']
                                   (new_engine NoItem False))) (pdf_id sample_doc_A) = Some doc"
    and len: "length (pageEmbeddings doc) = length [''data'', ''cat'']"
    and nth: "\<forall>i < length [''data'', ''cat'']. pageNumber (pageEmbeddings doc ! i) = int i + 1"
    and look: "\<forall>currentPage. 1 \<le> currentPage \<and> currentPage \<le> int (length [''data'', ''cat''])
                 \<longrightarrow> (\<exists>page. array_get (pageEmbeddings doc) (currentPage - 1) = Some page
                        \<and> pageNumber page = currentPage)"
    using addDocument_page_positions
      [of sample_doc_A "[''data'', ''cat'']" "new_engine NoItem False"]
    by blast
  from nth have "pageNumber (pageEmbeddings doc ! 1) = 2" by simp
  moreover from look [rule_format, of 2]
  have "\<exists>page. array_get (pageEmbeddings doc) 1 = Some page \<and> pageNumber page = 2" by simp
  ultimately show ?thesis
    using stored len by (simp add: sample_doc_A_def)
qed

text \<open>
  C1, as the code has it. \<open>addDocument\<close> has no test on the segments: every element of
  \<open>textContent\<close>, empty or not, gives one stored page with the first 1000 characters of
  the element as its text. The stored document has as many pages as \<open>textContent\<close> has
  elements, and no page exactly when \<open>textContent\<close> is empty.
\<close>

theorem addDocument_keeps_every_segment:
  "\<exists>doc. map_get (documents (addDocument d ts s)) (pdf_id d) = Some doc
     \<and> pageEmbeddings doc = map make_page (enumerate 0 ts)
     \<and> map page_text (pageEmbeddings doc) = map (take 1000) ts
     \<and> length (pageEmbeddings doc) = length ts
     \<and> (pageEmbeddings doc = [] \<longleftrightarrow> ts = [])"
proof -
  have "map page_text (map make_page (enumerate n ts)) = map (take 1000) ts" for n
    by (induction ts arbitrary: n) (simp_all add: make_page_def)
  moreover have "enumerate 0 ts = [] \<longleftrightarrow> ts = []"
    by (cases ts) simp_all
  ultimately show ?thesis
    by (simp add: stored_addDocument)
qed

text \<open>
  C1 as the specification states it fails: the empty segment of the one-element list is
  stored as page 1, though no segment of the list is non-empty; and a document added
  with no segment at all is stored with no page.
\<close>

theorem addDocument_skips_empty_counterexample:
  "map pageNumber (pageEmbeddings (the (map_get
       (documents (addDocument sample_doc_A [''''] (new_engine NoItem False))) ''A''))) = [1]
   \<and> filter (\<lambda>t. t \<noteq> []) [''''] = []
   \<and> map_get (documents (addDocument sample_doc_A [] (new_engine NoItem False))) ''A''
       = Some \<lparr>doc_id = ''A'', doc_name = ''a.pdf'', pageEmbeddings = []\<rparr>"
  by (simp add: stored_addDocument [of sample_doc_A, unfolded sample_doc_A_def, simplified]
        sample_doc_A_def make_page_def)

subsection \<open>initialize\<close>

lemma load_docs_all_Some: "snd (load_docs (map Some ds) docs) = True"
  by (induction ds arbitrary: docs) simp_all

lemma load_docs_with_None: "None \<in> set ds \<Longrightarrow> snd (load_docs ds docs) = False"
  by (induction ds docs rule: load_docs.induct) auto

text \<open>
  C3, as the code has it. \<open>initialize\<close> on an initialized engine changes nothing. A load
  that does not throw (no stored item, or a stored array of documents) leaves the engine
  initialized, and a second call is then without effect. A load that throws on the
  stored item leaves \<open>isInitialized\<close> false: for a string that does not parse or is
  no array the engine is unchanged, so the next call reads the storage again.
\<close>

theorem initialize_ready_only_after_success:
  "(isInitialized s \<longrightarrow> initialize s = s)
   \<and> (localStorage s = NoItem \<or> (\<exists>ds. localStorage s = DocArray (map Some ds))
        \<longrightarrow> isInitialized (initialize s) \<and> initialize (initialize s) = initialize s)
   \<and> (\<not> isInitialized s \<and> (localStorage s = Unparsable \<or> localStorage s = NotAnArray)
        \<longrightarrow> initialize s = s)
   \<and> (\<not> isInitialized s \<and> (\<exists>ds. localStorage s = DocArray ds \<and> None \<in> set ds)
        \<longrightarrow> \<not> isInitialized (initialize s))"
proof (intro conjI impI)
  assume "isInitialized s"
  then show "initialize s = s" by (simp add: initialize_def)
next
  assume ok: "localStorage s = NoItem \<or> (\<exists>ds. localStorage s = DocArray (map Some ds))"
  show "isInitialized (initialize s)"
  proof (cases "isInitialized s")
    case True
    then show ?thesis by (simp add: initialize_def)
  next
    case False
    from ok show ?thesis
    proof
      assume "localStorage s = NoItem"
      with False show ?thesis by (simp add: initialize_def)
    next
      assume "\<exists>ds. localStorage s = DocArray (map Some ds)"
      then obtain ds where ds: "localStorage s = DocArray (map Some ds)" ..
      obtain docs b where l: "load_docs (map Some ds) (documents s) = (docs, b)"
        by (cases "load_docs (map Some ds) (documents s)")
      with load_docs_all_Some [of ds "documents s"] have "b = True" by simp
      with False ds l show ?thesis by (simp add: initialize_def)
    qed
  qed
  then show "initialize (initialize s) = initialize s"
    by (simp add: initialize_def [of "initialize s"])
next
  assume "\<not> isInitialized s \<and> (localStorage s = Unparsable \<or> localStorage s = NotAnArray)"
  then show "initialize s = s" by (auto simp: initialize_def)
next
  assume a: "\<not> isInitialized s \<and> (\<exists>ds. localStorage s = DocArray ds \<and> None \<in> set ds)"
  then obtain ds where ds: "localStorage s = DocArray ds" "None \<in> set ds" by blast
  obtain docs b where l: "load_docs ds (documents s) = (docs, b)"
    by (cases "load_docs ds (documents s)")
  with load_docs_with_None [OF ds(2), of "documents s"] have "b = False" by simp
  with a ds l show "\<not> isInitialized (initialize s)" by (simp add: initialize_def)
qed

text \<open>C3 at four stored items: none, an array of one document, a string that does not
  parse, and an array whose second element is null.\<close>

theorem initialize_ready_only_after_success_witness:
  "initialize (initialize (new_engine NoItem False)) = initialize (new_engine NoItem False)
   \<and> isInitialized (initialize (new_engine (DocArray [Some sample_stored_doc]) False))
   \<and> initialize (new_engine Unparsable False) = new_engine Unparsable False
   \<and> \<not> isInitialized (initialize (new_engine (DocArray [Some sample_stored_doc, None]) False))"
proof (intro conjI)
  have "localStorage (new_engine NoItem False) = NoItem"
    by (simp add: new_engine_def)
  with initialize_ready_only_after_success [of "new_engine NoItem False"]
  show "initialize (initialize (new_engine NoItem False)) = initialize (new_engine NoItem False)"
    by simp
next
  have "localStorage (new_engine (DocArray [Some sample_stored_doc]) False)
          = DocArray (map Some [sample_stored_doc])"
    by (simp add: new_engine_def)
  then have "\<exists>ds. localStorage (new_engine (DocArray [Some sample_stored_doc]) False)
                 = DocArray (map Some ds)" ..
  with initialize_ready_only_after_success
         [of "new_engine (DocArray [Some sample_stored_doc]) False"]
  show "isInitialized (initialize (new_engine (DocArray [Some sample_stored_doc]) False))"
    by simp
next
  have "\<not> isInitialized (new_engine Unparsable False)
        \<and> (localStorage (new_engine Unparsable False) = Unparsable
            \<or> localStorage (new_engine Unparsable False) = NotAnArray)"
    by (simp add: new_engine_def)
  with initialize_ready_only_after_success [of "new_engine Unparsable False"]
  show "initialize (new_engine Unparsable False) = new_engine Unparsable False"
    by simp
next
  have "localStorage (new_engine (DocArray [Some sample_stored_doc, None]) False)
          = DocArray [Some sample_stored_doc, None] \<and> None \<in> set [Some sample_stored_doc, None]"
    by (simp add: new_engine_def)
  then have "\<exists>ds. localStorage (new_engine (DocArray [Some sample_stored_doc, None]) False)
                 = DocArray ds \<and> None \<in> set ds" ..
  moreover have "\<not> isInitialized (new_engine (DocArray [Some sample_stored_doc, None]) False)"
    by (simp add: new_engine_def)
  ultimately
  show "\<not> isInitialized (initialize (new_engine (DocArray [Some sample_stored_doc, None]) False))"
    using initialize_ready_only_after_success
            [of "new_engine (DocArray [Some sample_stored_doc, None]) False"]
    by simp
qed

text \<open>
  C3 as the specification states it fails: after a load that throws the engine is not
  initialized, and a load that throws at the second element of the stored array has
  already stored the first, so the documents are not empty then.
\<close>

theorem initialize_always_ready_counterexample:
  "\<not> isInitialized (initialize (new_engine Unparsable False))
   \<and> \<not> isInitialized (initialize (new_engine (DocArray [Some sample_stored_doc, None]) False))
   \<and> documents (initialize (new_engine (DocArray [Some sample_stored_doc, None]) False))
       = [(''A'', sample_stored_doc)]"
  by (simp add: initialize_def new_engine_def sample_stored_doc_def)

subsection \<open>The features of a text\<close>

lemma bucket_of_less: "bucket_of w < 100"
  by (simp add: bucket_of_def simpleHash_def nat_less_iff)

lemma length_embed_loop: "length (embed_loop n wc i emb) = length emb"
  by (induction n wc i emb rule: embed_loop.induct) (simp_all add: Let_def)

lemma embed_loop_nonneg:
  "\<forall>x \<in> set emb. 0 \<le> x \<Longrightarrow> \<forall>x \<in> set (embed_loop n wc i emb). 0 \<le> x"
proof (induction n wc i emb rule: embed_loop.induct)
  case (1 n i emb)
  then show ?case by simp
next
  case (2 n w c rest i emb)
  let ?emb' = "emb[bucket_of w := emb ! bucket_of w + real c / real n]"
  have "\<forall>x \<in> set ?emb'. 0 \<le> x"
  proof (cases "bucket_of w < length emb")
    case True
    with "2.prems" have "0 \<le> emb ! bucket_of w" by simp
    then have "0 \<le> emb ! bucket_of w + real c / real n" by simp
    with "2.prems" show ?thesis
      by (auto dest!: set_update_subset_insert [THEN subsetD])
  next
    case False
    then have "?emb' = emb" by (intro list_update_beyond) simp
    with "2.prems" show ?thesis by metis
  qed
  with "2.IH" show ?case by (simp add: Let_def)
qed

lemma embed_loop_nth:
  "i \<le> 50 \<Longrightarrow> b < length emb \<Longrightarrow>
   embed_loop n wc i emb ! b = emb ! b + sum_list (map (\<lambda>(w, c). if bucket_of w = b then real c / real n else 0) (take (51 - i) wc))"
proof (induction n wc i emb rule: embed_loop.induct)
  case (1 n i emb)
  then show ?case by simp
next
  case (2 n w c rest i emb)
  let ?emb' = "emb[bucket_of w := emb ! bucket_of w + real c / real n]"
  have step: "?emb' ! b = emb ! b + (if bucket_of w = b then real c / real n else 0)"
    using "2.prems" by (simp add: nth_list_update)
  have tk: "take (51 - i) ((w, c) # rest) = (w, c) # take (50 - i) rest"
    using "2.prems" by (simp add: take_Cons')
  show ?case
  proof (cases "i + 1 > 50")
    case True
    with "2.prems" have "i = 50" by simp
    with step show ?thesis by (simp add: Let_def)
  next
    case False
    then have "embed_loop n ((w, c) # rest) i emb = embed_loop n rest (i + 1) ?emb'"
      by (simp add: Let_def)
    moreover have "embed_loop n rest (i + 1) ?emb' ! b
                     = ?emb' ! b + sum_list (map (\<lambda>(w, c). if bucket_of w = b then real c / real n else 0)
                                       (take (51 - (i + 1)) rest))"
      using False "2.prems" by (intro "2.IH") simp_all
    ultimately show ?thesis using step tk by simp
  qed
qed

lemma word_runs_no_word_char:
  "\<forall>c \<in> set s. \<not> is_word_char c \<Longrightarrow> word_runs [] s = []"
  by (induction s) simp_all

lemma whitespace_not_word: "is_whitespace c \<Longrightarrow> \<not> is_word_char (toLowerCase_char c)"
  by (auto simp: is_whitespace_def is_word_char_def toLowerCase_char_def Let_def)


lemma map_get_distinct:
  "distinct (map fst m) \<Longrightarrow> (k, v) \<in> set m \<Longrightarrow> map_get m k = Some v"
  by (induction m) (auto simp: rev_image_eqI)

lemma keys_map_set: "set (map fst (map_set m k v)) = insert k (set (map fst m))"
  by (induction m) (fastforce split: if_splits)+

lemma distinct_map_set: "distinct (map fst m) \<Longrightarrow> distinct (map fst (map_set m k v))"
proof (induction m)
  case Nil
  then show ?case by simp
next
  case (Cons p m)
  then show ?case
    using keys_map_set [of m k v] by (cases p) auto
qed

lemma map_get_count_word:
  "map_get (count_word m w) w' =
     (if w' = w then Some ((case map_get m w of None \<Rightarrow> 0 | Some n \<Rightarrow> n) + 1)
      else map_get m w')"
  by (simp add: count_word_def map_get_map_set_same map_get_map_set_other)

lemma distinct_count_fold:
  "distinct (map fst m) \<Longrightarrow>
   distinct (map fst (foldl (\<lambda>m w. if P w then count_word m w else m) m ws))"
  by (induction ws arbitrary: m) (simp_all add: count_word_def distinct_map_set)

lemma map_get_count_fold:
  "map_get (foldl (\<lambda>m w. if P w then count_word m w else m) m ws) w =
     (if P w \<and> w \<in> set ws
      then Some ((case map_get m w of None \<Rightarrow> 0 | Some n \<Rightarrow> n) + count_list ws w)
      else map_get m w)"
proof (induction ws arbitrary: m)
  case Nil
  then show ?case by simp
next
  case (Cons x xs)
  show ?case
    by (auto simp: Cons.IH map_get_count_word split: option.splits)
qed

lemma count_words_entry:
  assumes "(w, c) \<in> set (count_words ws)"
  shows "c = count_list ws w \<and> 2 < length w \<and> w \<in> set ws"
proof -
  have "distinct (map fst (count_words ws))"
    unfolding count_words_def by (rule distinct_count_fold) simp
  with assms have "map_get (count_words ws) w = Some c"
    by (simp add: map_get_distinct)
  then show ?thesis
    unfolding count_words_def
    by (simp add: map_get_count_fold [where P = "\<lambda>w. 2 < length w"] split: if_splits)
qed

text \<open>
  C5, as the code has it. The weight that a folded word adds to its bucket is the number
  of its occurrences divided by \<^verbatim>\<open>words.length\<close>, the number of all the words that the
  text matches, those of one or two characters too: the coordinate \<open>b\<close> of the embedding
  is the sum of these weights over the first 51 entries of \<open>wordCount\<close> whose bucket is
  \<open>b\<close>.
\<close>

theorem embedding_weight_over_all_words:
  "b < 100 \<Longrightarrow>
   generateSimpleEmbedding txt ! b =
     (let words = match_words (toLowerCase txt)
      in sum_list (map (\<lambda>(w, c). if bucket_of w = b
                                  then real (count_list words w) / real (length words) else 0)
                    (take 51 (count_words words))))"
proof -
  assume b: "b < 100"
  let ?ws = "match_words (toLowerCase txt)"
  have "generateSimpleEmbedding txt ! b
          = sum_list (map (\<lambda>(w, c). if bucket_of w = b then real c / real (length ?ws) else 0)
                       (take 51 (count_words ?ws)))"
    using b embed_loop_nth [of 0 b "replicate 100 0" "length ?ws" "count_words ?ws"]
    by (simp add: generateSimpleEmbedding_def Let_def)
  also have "\<dots> = sum_list (map (\<lambda>(w, c). if bucket_of w = b
                                   then real (count_list ?ws w) / real (length ?ws) else 0)
                       (take 51 (count_words ?ws)))"
  proof (rule arg_cong [where f = sum_list], rule map_cong [OF refl])
    fix e assume "e \<in> set (take 51 (count_words ?ws))"
    then have "e \<in> set (count_words ?ws)" by (rule in_set_takeD)
    then have "snd e = count_list ?ws (fst e)"
      using count_words_entry [of "fst e" "snd e" ?ws] by simp
    then show "(case e of (w, c) \<Rightarrow> if bucket_of w = b then real c / real (length ?ws) else 0)
             = (case e of (w, c) \<Rightarrow> if bucket_of w = b
                                     then real (count_list ?ws w) / real (length ?ws) else 0)"
      by (cases e) simp
  qed
  finally show ?thesis by (simp add: Let_def)
qed

text \<open>C5 at the text \<open>a cat\<close>: two words, one of them counted, the weight \<open>1 / 2\<close>.\<close>

theorem embedding_weight_over_all_words_witness:
  "generateSimpleEmbedding ''a cat'' ! 62 = 1 / 2
   \<and> match_words (toLowerCase ''a cat'') = [''a'', ''cat'']
   \<and> count_words [''a'', ''cat''] = [(''cat'', 1)]"
proof -
  have ws: "match_words (toLowerCase ''a cat'') = [''a'', ''cat'']" by code_simp
  have wc: "count_words [''a'', ''cat''] = [(''cat'', 1)]" by code_simp
  have bk: "bucket_of ''cat'' = 62" by code_simp
  have "(62::nat) < 100" by simp
  from embedding_weight_over_all_words [OF this, of "''a cat''"]
  have "generateSimpleEmbedding ''a cat'' ! 62 = 1 / 2"
    by (simp add: ws wc bk)
  with ws wc show ?thesis by simp
qed

text \<open>
  C5 as the specification states it fails: in \<open>a cat\<close> the word \<open>cat\<close> occurs once and
  is the only word longer than two characters, and its weight is \<open>1 / 2\<close>, not \<open>1 / 1\<close>.
\<close>

theorem embedding_weight_filtered_counterexample:
  "generateSimpleEmbedding ''a cat'' ! bucket_of ''cat'' = 1 / 2
   \<and> count_list (match_words (toLowerCase ''a cat'')) ''cat'' = 1
   \<and> length (filter (\<lambda>w. 2 < length w) (match_words (toLowerCase ''a cat''))) = 1
   \<and> length (match_words (toLowerCase ''a cat'')) = 2"
  by code_simp

text \<open>
  C8. For every text the embedding has 100 coordinates, none of them negative; for a
  text of white space only (the empty text too) the embedding is the zero vector and
  there is no keyword. Both functions are total: no step of theirs can throw.
\<close>

theorem features_total:
  "length (generateSimpleEmbedding txt) = 100
   \<and> (\<forall>x \<in> set (generateSimpleEmbedding txt). 0 \<le> x)
   \<and> ((\<forall>c \<in> set txt. is_whitespace c) \<longrightarrow>
         generateSimpleEmbedding txt = replicate 100 0 \<and> extractKeywords txt = [])"
proof (intro conjI impI)
  show "length (generateSimpleEmbedding txt) = 100"
    by (simp add: generateSimpleEmbedding_def Let_def length_embed_loop)
  show "\<forall>x \<in> set (generateSimpleEmbedding txt). 0 \<le> x"
    unfolding generateSimpleEmbedding_def Let_def
    by (rule embed_loop_nonneg) simp
next
  assume "\<forall>c \<in> set txt. is_whitespace c"
  then have "\<forall>c \<in> set (toLowerCase txt). \<not> is_word_char c"
    by (simp add: toLowerCase_def whitespace_not_word)
  then have runs: "word_runs [] (toLowerCase txt) = []"
    by (rule word_runs_no_word_char)
  show "generateSimpleEmbedding txt = replicate 100 0"
    by (simp add: generateSimpleEmbedding_def match_words_def runs count_words_def)
  show "extractKeywords txt = []"
    by (simp add: extractKeywords_def match_long_words_def runs count_frequency_def
          sort_by_count_def)
qed

text \<open>C8 at the text \<open>a cat\<close> and at a text of two spaces.\<close>

theorem features_total_witness:
  "length (generateSimpleEmbedding ''a cat'') = 100
   \<and> 0 \<le> generateSimpleEmbedding ''a cat'' ! 62
   \<and> generateSimpleEmbedding ''  '' = replicate 100 0
   \<and> extractKeywords ''  '' = []"
proof -
  have ws: "\<forall>c \<in> set ''  ''. is_whitespace c"
    by (simp add: is_whitespace_def)
  have "generateSimpleEmbedding ''a cat'' ! 62 \<in> set (generateSimpleEmbedding ''a cat'')"
    using features_total [of "''a cat''"] by (intro nth_mem) simp
  then have "0 \<le> generateSimpleEmbedding ''a cat'' ! 62"
    using features_total [of "''a cat''"] by blast
  then show ?thesis
    using features_total [of "''a cat''"] features_total [of "''  ''"] ws by blast
qed


subsection \<open>The cap of the loop\<close>

lemma embed_loop_take_51:
  "length emb = 100 \<Longrightarrow> embed_loop n wc 0 emb = embed_loop n (take 51 wc) 0 emb"
  by (rule nth_equalityI) (simp_all add: length_embed_loop embed_loop_nth)

lemma words52: "match_words (toLowerCase text52) = tokens52"
  by code_simp

lemma counts52: "count_words tokens52 = map (\<lambda>w. (w, 1)) tokens52"
  by code_simp

lemma buckets52: "map bucket_of tokens52 = [21..<47] @ [52..<78]"
  by code_simp

lemma embedding52:
  "generateSimpleEmbedding text52 ! 76 = 1 / 52 \<and> generateSimpleEmbedding text52 ! 77 = 0"
  by code_simp

text \<open>
  C4, the code at a text of 52 different words. The loop adds one to \<open>index\<close> before the
  test \<^verbatim>\<open>index > 50\<close>, so it leaves after the word 51, not after the word 50. The
  word 51 of \<open>text52\<close> is \<open>aby\<close>, the only word of the text in bucket 76, and bucket 76
  holds its weight; the word 52, \<open>abz\<close>, the only one in bucket 77, is left out.
\<close>

theorem embedding_folds_51_words:
  "match_words (toLowerCase text52) = tokens52
   \<and> map fst (count_words tokens52) = tokens52
   \<and> length tokens52 = 52
   \<and> tokens52 ! 50 = ''aby''
   \<and> tokens52 ! 51 = ''abz''
   \<and> filter (\<lambda>w. bucket_of w = 76) tokens52 = [''aby'']
   \<and> filter (\<lambda>w. bucket_of w = 77) tokens52 = [''abz'']
   \<and> generateSimpleEmbedding text52 ! 76 = 1 / 52
   \<and> generateSimpleEmbedding text52 ! 77 = 0"
proof -
  have "map fst (count_words tokens52) = tokens52"
    by (simp add: counts52 comp_def)
  moreover have "length tokens52 = 52" "tokens52 ! 50 = ''aby''" "tokens52 ! 51 = ''abz''"
    by (simp_all add: tokens52_def)
  moreover have "filter (\<lambda>w. bucket_of w = 76) tokens52 = [''aby'']"
    by code_simp
  moreover have "filter (\<lambda>w. bucket_of w = 77) tokens52 = [''abz'']"
    by code_simp
  ultimately show ?thesis
    using words52 embedding52 by simp
qed

subsection \<open>calculateSimilarity\<close>

lemma similarity_loop_sums:
  "length xs = length ys \<Longrightarrow>
   similarity_loop xs ys (d, n1, n2) =
     Some (d + sum_list (map2 (*) xs ys),
           n1 + sum_list (map (\<lambda>x. x * x) xs),
           n2 + sum_list (map (\<lambda>y. y * y) ys))"
  by (induction xs ys arbitrary: d n1 n2 rule: list_induct2) (simp_all add: algebra_simps)

lemma sum_squares_nonneg: "0 \<le> sum_list (map (\<lambda>x. x * x) (xs :: real list))"
  by (induction xs) simp_all

lemma dot_nonneg:
  "length xs = length ys \<Longrightarrow> \<forall>x \<in> set xs. (0::real) \<le> x \<Longrightarrow> \<forall>y \<in> set ys. 0 \<le> y \<Longrightarrow>
   0 \<le> sum_list (map2 (*) xs ys)"
  by (induction xs ys rule: list_induct2) simp_all

lemma cross_term_bound:
  fixes D A B x y :: real
  assumes "D\<^sup>2 \<le> A * B" "0 \<le> A" "0 \<le> B"
  shows "2 * D * x * y \<le> A * y\<^sup>2 + B * x\<^sup>2"
proof (rule power2_le_imp_le)
  have "(2 * D * x * y)\<^sup>2 = 4 * (D\<^sup>2 * (x\<^sup>2 * y\<^sup>2))"
    by (simp add: power2_eq_square)
  also have "\<dots> \<le> 4 * ((A * B) * (x\<^sup>2 * y\<^sup>2))"
    using assms(1) by (intro mult_left_mono mult_right_mono) simp_all
  also have "\<dots> \<le> (A * y\<^sup>2 + B * x\<^sup>2)\<^sup>2"
  proof -
    have "0 \<le> (A * y\<^sup>2 - B * x\<^sup>2)\<^sup>2" by simp
    then show ?thesis by (simp add: power2_eq_square algebra_simps)
  qed
  finally show "(2 * D * x * y)\<^sup>2 \<le> (A * y\<^sup>2 + B * x\<^sup>2)\<^sup>2" .
  show "0 \<le> A * y\<^sup>2 + B * x\<^sup>2" using assms by simp
qed

lemma Cauchy_Schwarz_lists:
  "length xs = length ys \<Longrightarrow>
   (sum_list (map2 (*) xs ys))\<^sup>2
     \<le> sum_list (map (\<lambda>x. x * x) xs) * sum_list (map (\<lambda>y. y * y) (ys :: real list))"
proof (induction xs ys rule: list_induct2)
  case Nil
  then show ?case by simp
next
  case (Cons x xs y ys)
  let ?D = "sum_list (map2 (*) xs ys)"
  let ?A = "sum_list (map (\<lambda>x. x * x) xs)"
  let ?B = "sum_list (map (\<lambda>y. y * y) ys)"
  have "2 * ?D * x * y \<le> ?A * y\<^sup>2 + ?B * x\<^sup>2"
    using Cons.IH sum_squares_nonneg [of xs] sum_squares_nonneg [of ys]
    by (rule cross_term_bound)
  then have "(x * y + ?D)\<^sup>2 \<le> (x * x + ?A) * (y * y + ?B)"
    using Cons.IH by (simp add: power2_eq_square algebra_simps)
  then show ?case by simp
qed

lemma cosineSim_bounds:
  assumes len: "length e1 = length e2"
    and nonneg: "\<forall>x \<in> set e1. 0 \<le> x" "\<forall>y \<in> set e2. 0 \<le> y"
  shows "0 \<le> cosineSim e1 e2 \<and> cosineSim e1 e2 \<le> 1"
proof -
  let ?D = "sum_list (map2 (*) e1 e2)"
  let ?A = "sum_list (map (\<lambda>x. x * x) e1)"
  let ?B = "sum_list (map (\<lambda>y. y * y) e2)"
  have loop: "similarity_loop e1 e2 (0, 0, 0) = Some (?D, ?A, ?B)"
    using similarity_loop_sums [OF len, of 0 0 0] by simp
  have D0: "0 \<le> ?D" using len nonneg by (rule dot_nonneg)
  have "?D\<^sup>2 \<le> ?A * ?B" using len by (rule Cauchy_Schwarz_lists)
  then have "?D \<le> sqrt (?A * ?B)" by (rule real_le_rsqrt)
  then have le: "?D \<le> sqrt ?A * sqrt ?B" by (simp add: real_sqrt_mult)
  have pos: "0 \<le> sqrt ?A * sqrt ?B"
    using sum_squares_nonneg [of e1] sum_squares_nonneg [of e2] by simp
  show ?thesis
  proof (cases "?A \<noteq> 0 \<and> ?B \<noteq> 0")
    case True
    then have "0 < sqrt ?A * sqrt ?B" using pos by (simp add: less_le)
    with D0 le True show ?thesis
      by (simp add: cosineSim_def loop)
  next
    case False
    then show ?thesis by (auto simp: cosineSim_def loop)
  qed
qed

lemma keyword_divisor_pos: "1 \<le> keyword_divisor k1 k2"
  by (simp add: keyword_divisor_def)

lemma keywordSim_bounds: "0 \<le> keywordSim k1 k2 \<and> keywordSim k1 k2 \<le> 1"
proof -
  have "length (filter (\<lambda>k. k \<in> set k2) k1) \<le> keyword_divisor k1 k2"
    by (rule order_trans [OF length_filter_le]) (simp add: keyword_divisor_def)
  moreover have "0 < keyword_divisor k1 k2"
    using keyword_divisor_pos [of k1 k2] by simp
  ultimately show ?thesis
    by (simp add: keywordSim_def Let_def)
qed

text \<open>
  C9, in exact arithmetic. For two vectors of the same length with no negative
  coordinate and any two lists of keywords, the score computed without rounding lies
  between 0 and 1, and so do its cosine part and its keyword part. The divisor of the
  keyword part is at least 1, and the divisor of the cosine part is not zero where the
  guard \<^verbatim>\<open>norm1 && norm2\<close> lets the division run. The score is a total function: it
  has no failing step.
\<close>

theorem calculateSimilarity_bounds:
  assumes "length e1 = length e2"
    and "\<forall>x \<in> set e1. 0 \<le> x" and "\<forall>y \<in> set e2. 0 \<le> y"
  shows "0 \<le> calculateSimilarity e1 e2 k1 k2 \<and> calculateSimilarity e1 e2 k1 k2 \<le> 1
    \<and> 0 \<le> cosineSim e1 e2 \<and> cosineSim e1 e2 \<le> 1
    \<and> 0 \<le> keywordSim k1 k2 \<and> keywordSim k1 k2 \<le> 1
    \<and> 1 \<le> keyword_divisor k1 k2
    \<and> (\<exists>d n1 n2. similarity_loop e1 e2 (0, 0, 0) = Some (d, n1, n2)
          \<and> (n1 \<noteq> 0 \<and> n2 \<noteq> 0 \<longrightarrow> sqrt n1 * sqrt n2 \<noteq> 0))"
proof -
  have c: "0 \<le> cosineSim e1 e2 \<and> cosineSim e1 e2 \<le> 1"
    using assms by (rule cosineSim_bounds)
  have k: "0 \<le> keywordSim k1 k2 \<and> keywordSim k1 k2 \<le> 1"
    by (rule keywordSim_bounds)
  have "0 \<le> calculateSimilarity e1 e2 k1 k2 \<and> calculateSimilarity e1 e2 k1 k2 \<le> 1"
    using c k by (simp add: calculateSimilarity_def)
  moreover have "\<exists>d n1 n2. similarity_loop e1 e2 (0, 0, 0) = Some (d, n1, n2)
          \<and> (n1 \<noteq> 0 \<and> n2 \<noteq> 0 \<longrightarrow> sqrt n1 * sqrt n2 \<noteq> 0)"
    using similarity_loop_sums [OF assms(1), of 0 0 0] by simp
  ultimately show ?thesis
    using c k keyword_divisor_pos [of k1 k2] by simp
qed

text \<open>C9 at the vectors \<open>(3, 4)\<close> and \<open>(4, 3)\<close>.\<close>

theorem calculateSimilarity_bounds_witness:
  "0 \<le> calculateSimilarity [3, 4] [4, 3] [''data'', ''cat''] [''data'']
   \<and> calculateSimilarity [3, 4] [4, 3] [''data'', ''cat''] [''data''] \<le> 1
   \<and> similarity_loop [3, 4] [4, 3] (0, 0, 0) = Some (24, 25, 25)
   \<and> keyword_divisor [''data'', ''cat''] [''data''] = 2"
proof -
  have "length [3, 4 :: real] = length [4, 3 :: real]" by simp
  moreover have "\<forall>x \<in> set [3, 4 :: real]. 0 \<le> x" by simp
  moreover have "\<forall>y \<in> set [4, 3 :: real]. 0 \<le> y" by simp
  ultimately have "0 \<le> calculateSimilarity [3, 4] [4, 3] [''data'', ''cat''] [''data'']
     \<and> calculateSimilarity [3, 4] [4, 3] [''data'', ''cat''] [''data''] \<le> 1"
    using calculateSimilarity_bounds [of "[3, 4]" "[4, 3]" "[''data'', ''cat'']" "[''data'']"]
    by blast
  then show ?thesis by (simp add: keyword_divisor_def)
qed

subsection \<open>The score in double precision\<close>

text \<open>The arithmetic on doubles at some known values: \<open>0.1 + 0.2\<close> is
  \<open>0.30000000000000004\<close>, the square root of 2 is \<open>1.4142135623730951\<close>, and
  \<open>2 ^ 53 + 1\<close> is rounded to \<open>2 ^ 53\<close>.\<close>

lemma double_arithmetic_samples:
  "dbl_add (dbl_ratio 1 10) (dbl_ratio 2 10) = Dbl 5404319552844596 (- 54)"
  "dbl_sqrt (dbl_of_int 2) = Dbl 6369051672525773 (- 52)"
  "dbl_of_int 9007199254740993 = Dbl 4503599627370496 1"
  "dbl_ratio 7 10 = Dbl 6305039478318694 (- 53)"
  "dbl_ratio 3 10 = Dbl 5404319552844595 (- 54)"
  by code_simp+

lemma similarity_loop_double_sample:
  "similarity_loop_double [dbl_ratio 1 11, dbl_ratio 4 11] [dbl_ratio 1 21, dbl_ratio 4 21]
     (Dbl 0 0, Dbl 0 0, Dbl 0 0)
   = (Dbl 5302939820973052 (- 56), Dbl 5061897101837913 (- 55), Dbl 5555460764828910 (- 57))"
  by code_simp

lemma cosineSim_double_sample:
  "cosineSim_double [dbl_ratio 1 11, dbl_ratio 4 11] [dbl_ratio 1 21, dbl_ratio 4 21]
   = Dbl 4503599627370498 (- 52)"
  by code_simp

text \<open>
  C9 as the specification states it fails in the arithmetic of the program. The two
  vectors are \<open>(1 / 11, 4 / 11)\<close> and \<open>(1 / 21, 4 / 21)\<close> as doubles, the weights of a
  word that occurs once and a word that occurs four times in a text of 11 and in a text
  of 21 words, and the keyword lists are equal. The cosine part is rounded to
  \<open>1 + 2 / 2 ^ 52\<close> and the score to \<open>1 + 1 / 2 ^ 52\<close>, which is above 1: the program
  prints it as \<open>1.0000000000000002\<close>.
\<close>

theorem calculateSimilarity_double_above_one_counterexample:
  "calculateSimilarity_double [dbl_ratio 1 11, dbl_ratio 4 11] [dbl_ratio 1 21, dbl_ratio 4 21]
       [''cats'', ''data''] [''cats'', ''data'']
     = Dbl 4503599627370497 (- 52)
   \<and> dbl_value (Dbl 4503599627370497 (- 52)) = Some (1 + 1 / 2 ^ 52)
   \<and> (1 :: rat) < 1 + 1 / 2 ^ 52"
proof -
  have "calculateSimilarity_double [dbl_ratio 1 11, dbl_ratio 4 11]
          [dbl_ratio 1 21, dbl_ratio 4 21] [''cats'', ''data''] [''cats'', ''data'']
        = Dbl 4503599627370497 (- 52)"
    by code_simp
  moreover have "dbl_value (Dbl 4503599627370497 (- 52)) = Some (1 + 1 / 2 ^ 52)"
    by (simp add: dbl_value_def)
  ultimately show ?thesis by simp
qed

subsection \<open>findRelatedSections\<close>

lemma scan_page_item:
  "(sec, sc) \<in> set (scan_page cur p qe qk docId doc page) \<longleftrightarrow>
     \<not> (docId = cur \<and> pageNumber page = p)
     \<and> sc = calculateSimilarity qe (embedding page) qk (page_keywords page)
     \<and> 0.3 < sc
     \<and> sec = make_section docId doc page sc"
  by (auto simp: scan_page_def Let_def)

lemma scan_documents_item:
  "(sec, sc) \<in> set (scan_documents cur p qe qk docs) \<longleftrightarrow>
     (\<exists>docId doc page. (docId, doc) \<in> set docs \<and> page \<in> set (pageEmbeddings doc)
        \<and> \<not> (docId = cur \<and> pageNumber page = p)
        \<and> sc = calculateSimilarity qe (embedding page) qk (page_keywords page)
        \<and> 0.3 < sc
        \<and> sec = make_section docId doc page sc)"
  unfolding scan_documents_def by (simp add: scan_page_item) blast

lemma scan_documents_sound:
  assumes "item \<in> set (scan_documents cur p qe qk docs)"
  shows "relevanceScore (fst item) = snd item \<and> 0.3 < snd item
         \<and> \<not> (documentId (fst item) = cur \<and> section_pageNumber (fst item) = p)"
proof -
  obtain sec sc where item: "item = (sec, sc)" by (cases item)
  with assms scan_documents_item [of sec sc cur p qe qk docs] show ?thesis
    by (auto simp: make_section_def)
qed

lemma set_top_sections: "set (top_sections xs) \<subseteq> fst ` set xs"
proof -
  have "set (take 5 (sort_key (\<lambda>item. - snd item) xs)) \<subseteq> set xs"
    using set_take_subset [of 5 "sort_key (\<lambda>item. - snd item) xs"] by simp
  then show ?thesis by (auto simp: top_sections_def)
qed

lemma length_top_sections: "length (top_sections xs) \<le> 5"
  by (simp add: top_sections_def)

lemma sorted_top_sections:
  assumes "\<forall>item \<in> set xs. relevanceScore (fst item) = snd item"
  shows "sorted_wrt (\<lambda>a b. relevanceScore b \<le> relevanceScore a) (top_sections xs)"
proof -
  let ?key = "\<lambda>item :: RelatedSection \<times> real. - snd item"
  let ?ys = "take 5 (sort_key ?key xs)"
  have "sorted (map ?key (sort_key ?key xs))"
    by (rule sorted_sort_key)
  then have "sorted_wrt (\<lambda>a b. ?key a \<le> ?key b) (sort_key ?key xs)"
    by (simp only: sorted_map)
  then have by_key: "sorted_wrt (\<lambda>a b. ?key a \<le> ?key b) ?ys"
    by (rule sorted_wrt_take)
  have sub: "set ?ys \<subseteq> set xs"
    using set_take_subset [of 5 "sort_key ?key xs"] by simp
  have "sorted_wrt (\<lambda>a b. relevanceScore (fst b) \<le> relevanceScore (fst a)) ?ys"
  proof (rule sorted_wrt_mono_rel [OF _ by_key])
    fix a b
    assume "a \<in> set ?ys" "b \<in> set ?ys" and le: "?key a \<le> ?key b"
    with sub have "a \<in> set xs" "b \<in> set xs" by blast+
    with assms have "relevanceScore (fst a) = snd a" "relevanceScore (fst b) = snd b"
      by blast+
    with le show "relevanceScore (fst b) \<le> relevanceScore (fst a)" by simp
  qed
  then show ?thesis
    by (simp only: top_sections_def sorted_wrt_map)
qed

lemma search_sections_sound:
  assumes "r \<in> set (search_sections docs cur p q)"
  shows "0.3 < relevanceScore r \<and> \<not> (documentId r = cur \<and> section_pageNumber r = p)"
proof -
  let ?xs = "scan_documents cur p (generateSimpleEmbedding q) (extractKeywords q) docs"
  from assms have "r \<in> fst ` set ?xs"
    using set_top_sections [of ?xs] by (auto simp: search_sections_def Let_def)
  then obtain item where "item \<in> set ?xs" "r = fst item" by blast
  with scan_documents_sound [of item cur p _ _ docs] show ?thesis by simp
qed

lemma findRelatedSections_cases:
  "fst (findRelatedSections cur p q s) = [] \<or>
   (\<exists>doc. map_get (documents (initialize s)) cur = Some doc
      \<and> fst (findRelatedSections cur p q s)
          = search_sections (documents (initialize s)) cur p (resolve_query doc p q))"
  by (simp add: findRelatedSections_def Let_def split: option.splits)

text \<open>The sample engine, evaluated.\<close>

lemma features_data:
  "generateSimpleEmbedding ''data'' = (replicate 100 0)[10 := 1]"
  "extractKeywords ''data'' = [''data'']"
  "generateSimpleEmbedding ''cat'' = (replicate 100 0)[62 := 1]"
  "extractKeywords ''cat'' = []"
  by code_simp+

lemma loop_data_data:
  "similarity_loop ((replicate 100 0)[10 := 1]) ((replicate 100 0)[10 := 1]) (0, 0, 0)
     = Some (1, 1, 1)"
  by code_simp

lemma loop_data_cat:
  "similarity_loop ((replicate 100 0)[10 := 1]) ((replicate 100 0)[62 := 1]) (0, 0, 0)
     = Some (0, 1, 1)"
  by code_simp

lemma similarity_data_data:
  "calculateSimilarity (generateSimpleEmbedding ''data'') (generateSimpleEmbedding ''data'')
     (extractKeywords ''data'') (extractKeywords ''data'') = 1"
  by (simp add: calculateSimilarity_def cosineSim_def keywordSim_def keyword_divisor_def
        features_data loop_data_data)

lemma similarity_data_cat:
  "calculateSimilarity (generateSimpleEmbedding ''data'') (generateSimpleEmbedding ''cat'')
     (extractKeywords ''data'') (extractKeywords ''cat'') = 0"
  by (simp add: calculateSimilarity_def cosineSim_def keywordSim_def keyword_divisor_def
        features_data loop_data_cat)

lemma documents_sample_engine:
  "documents (initialize sample_engine) =
     [(''A'', \<lparr>doc_id = ''A'', doc_name = ''a.pdf'',
              pageEmbeddings = [make_page (0, ''data''), make_page (1, ''cat'')]\<rparr>),
      (''B'', \<lparr>doc_id = ''B'', doc_name = ''b.pdf'',
              pageEmbeddings = [make_page (0, ''data'')]\<rparr>)]"
  by (simp add: sample_engine_def sample_doc_A_def sample_doc_B_def new_engine_def
        addDocument_def saveToStorage_def initialize_def Let_def)

lemma search_sample_A1:
  "search_sections (documents (initialize sample_engine)) ''A'' 1 ''data''
     = [make_section ''B'' \<lparr>doc_id = ''B'', doc_name = ''b.pdf'',
                               pageEmbeddings = [make_page (0, ''data'')]\<rparr>
          (make_page (0, ''data'')) 1]"
  by (simp add: documents_sample_engine search_sections_def scan_documents_def scan_page_def
        top_sections_def make_page_def similarity_data_data similarity_data_cat Let_def)

lemma string_of_int_1: "string_of_int 1 = ''1''"
  by code_simp

lemma search_sample_Z1:
  "map section_id (search_sections (documents (initialize sample_engine)) ''Z'' 1 ''data'')
     = [''A-1'', ''B-1'']"
  by (simp add: documents_sample_engine search_sections_def scan_documents_def scan_page_def
        top_sections_def make_page_def similarity_data_data similarity_data_cat Let_def
        make_section_def string_of_int_1)

text \<open>
  C6. Every section that \<open>findRelatedSections\<close> returns has a relevance score above
  0.3, at most five sections are returned, and their scores do not increase along the
  result.
\<close>

theorem findRelatedSections_threshold_top5_sorted:
  "(\<forall>r \<in> set (fst (findRelatedSections cur p q s)). 0.3 < relevanceScore r)
   \<and> length (fst (findRelatedSections cur p q s)) \<le> 5
   \<and> sorted_wrt (\<lambda>a b. relevanceScore b \<le> relevanceScore a)
        (fst (findRelatedSections cur p q s))"
proof -
  from findRelatedSections_cases [of cur p q s] show ?thesis
  proof
    assume "fst (findRelatedSections cur p q s) = []"
    then show ?thesis by simp
  next
    assume "\<exists>doc. map_get (documents (initialize s)) cur = Some doc
      \<and> fst (findRelatedSections cur p q s)
          = search_sections (documents (initialize s)) cur p (resolve_query doc p q)"
    then obtain doc where
      eq: "fst (findRelatedSections cur p q s)
             = search_sections (documents (initialize s)) cur p (resolve_query doc p q)"
      by blast
    let ?xs = "scan_documents cur p (generateSimpleEmbedding (resolve_query doc p q))
                 (extractKeywords (resolve_query doc p q)) (documents (initialize s))"
    have "\<forall>item \<in> set ?xs. relevanceScore (fst item) = snd item"
      using scan_documents_sound by blast
    then have "sorted_wrt (\<lambda>a b. relevanceScore b \<le> relevanceScore a) (top_sections ?xs)"
      by (rule sorted_top_sections)
    then show ?thesis
      using search_sections_sound [of _ "documents (initialize s)" cur p "resolve_query doc p q"]
      by (auto simp: eq search_sections_def Let_def length_top_sections)
  qed
qed

text \<open>C6 at the sample engine, asked for page 1 of \<open>A\<close>: the one result is page 1 of
  \<open>B\<close>.\<close>

theorem findRelatedSections_threshold_top5_sorted_witness:
  "map section_id (fst (findRelatedSections ''A'' 1 None sample_engine)) = [''B-1'']
   \<and> 0.3 < relevanceScore (hd (fst (findRelatedSections ''A'' 1 None sample_engine)))
   \<and> length (fst (findRelatedSections ''A'' 1 None sample_engine)) \<le> 5
   \<and> sorted_wrt (\<lambda>a b. relevanceScore b \<le> relevanceScore a)
        (fst (findRelatedSections ''A'' 1 None sample_engine))"
proof -
  let ?rs = "fst (findRelatedSections ''A'' 1 None sample_engine)"
  have rs: "?rs = search_sections (documents (initialize sample_engine)) ''A'' 1 ''data''"
    by (simp add: findRelatedSections_def Let_def documents_sample_engine resolve_query_def
          array_get_def make_page_def)
  then have ids: "map section_id ?rs = [''B-1'']"
    by (simp add: search_sample_A1 make_section_def make_page_def string_of_int_1)
  then have "hd ?rs \<in> set ?rs"
    by (intro hd_in_set) auto
  with findRelatedSections_threshold_top5_sorted [of "''A''" 1 None sample_engine] ids
  show ?thesis by blast
qed

text \<open>
  C7. No section that \<open>findRelatedSections currentDocId currentPage\<close> returns has both
  the document id \<open>currentDocId\<close> and the page number \<open>currentPage\<close>.
\<close>

theorem findRelatedSections_excludes_self:
  "\<forall>r \<in> set (fst (findRelatedSections cur p q s)).
     \<not> (documentId r = cur \<and> section_pageNumber r = p)"
proof -
  from findRelatedSections_cases [of cur p q s] show ?thesis
  proof
    assume "fst (findRelatedSections cur p q s) = []"
    then show ?thesis by simp
  next
    assume "\<exists>doc. map_get (documents (initialize s)) cur = Some doc
      \<and> fst (findRelatedSections cur p q s)
          = search_sections (documents (initialize s)) cur p (resolve_query doc p q)"
    then obtain doc where
      eq: "fst (findRelatedSections cur p q s)
             = search_sections (documents (initialize s)) cur p (resolve_query doc p q)"
      by blast
    show ?thesis
      unfolding eq using search_sections_sound by blast
  qed
qed

text \<open>C7 at the sample engine, asked for page 1 of \<open>B\<close> with the text \<open>data\<close>: the one
  result is page 1 of \<open>A\<close>, though page 1 of \<open>B\<close> has the same text.\<close>

theorem findRelatedSections_excludes_self_witness:
  "map (\<lambda>r. (documentId r, section_pageNumber r))
       (fst (findRelatedSections ''B'' 1 (Some ''data'') sample_engine)) = [(''A'', 1)]
   \<and> \<not> (documentId (hd (fst (findRelatedSections ''B'' 1 (Some ''data'') sample_engine))) = ''B''
          \<and> section_pageNumber
               (hd (fst (findRelatedSections ''B'' 1 (Some ''data'') sample_engine))) = 1)"
proof -
  let ?rs = "fst (findRelatedSections ''B'' 1 (Some ''data'') sample_engine)"
  have rs: "?rs = search_sections (documents (initialize sample_engine)) ''B'' 1 ''data''"
    by (simp add: findRelatedSections_def Let_def documents_sample_engine resolve_query_def)
  have ids: "map (\<lambda>r. (documentId r, section_pageNumber r)) ?rs = [(''A'', 1)]"
    unfolding rs
    by (simp add: documents_sample_engine search_sections_def scan_documents_def scan_page_def
          top_sections_def make_page_def similarity_data_data similarity_data_cat Let_def
          make_section_def)
  then have "hd ?rs \<in> set ?rs"
    by (intro hd_in_set) auto
  with findRelatedSections_excludes_self [of "''B''" 1 "Some ''data''" sample_engine] ids
  show ?thesis by blast
qed

text \<open>
  C2, as the code has it. When \<open>currentDocId\<close> is not a key of the documents, after the
  load, the result is empty whatever the selected text is, and the call does not fail.
  When it is a key and the selected text is not empty, the query is the selected text:
  the result is the top of the scan with the features of that text. The scan holds an
  entry for exactly the stored pages, of every document, that are not the page
  \<open>currentPage\<close> of \<open>currentDocId\<close> and whose score is above 0.3.
\<close>

theorem findRelatedSections_query_source:
  "(map_get (documents (initialize s)) cur = None \<longrightarrow>
      findRelatedSections cur p q s = ([], initialize s))
   \<and> (map_get (documents (initialize s)) cur \<noteq> None \<and> t \<noteq> [] \<longrightarrow>
        findRelatedSections cur p (Some t) s =
          (top_sections (scan_documents cur p (generateSimpleEmbedding t) (extractKeywords t)
                           (documents (initialize s))),
           initialize s))
   \<and> set (scan_documents cur p (generateSimpleEmbedding t) (extractKeywords t) docs) =
        {(make_section docId doc page sc, sc) | docId doc page sc.
           (docId, doc) \<in> set docs \<and> page \<in> set (pageEmbeddings doc)
           \<and> \<not> (docId = cur \<and> pageNumber page = p)
           \<and> sc = calculateSimilarity (generateSimpleEmbedding t) (embedding page)
                      (extractKeywords t) (page_keywords page)
           \<and> 0.3 < sc}"
proof (intro conjI impI)
  assume "map_get (documents (initialize s)) cur = None"
  then show "findRelatedSections cur p q s = ([], initialize s)"
    by (simp add: findRelatedSections_def Let_def)
next
  assume "map_get (documents (initialize s)) cur \<noteq> None \<and> t \<noteq> []"
  then show "findRelatedSections cur p (Some t) s =
          (top_sections (scan_documents cur p (generateSimpleEmbedding t) (extractKeywords t)
                           (documents (initialize s))),
           initialize s)"
    by (auto simp: findRelatedSections_def Let_def resolve_query_def search_sections_def)
next
  show "set (scan_documents cur p (generateSimpleEmbedding t) (extractKeywords t) docs) =
        {(make_section docId doc page sc, sc) | docId doc page sc.
           (docId, doc) \<in> set docs \<and> page \<in> set (pageEmbeddings doc)
           \<and> \<not> (docId = cur \<and> pageNumber page = p)
           \<and> sc = calculateSimilarity (generateSimpleEmbedding t) (embedding page)
                      (extractKeywords t) (page_keywords page)
           \<and> 0.3 < sc}"
  proof (rule set_eqI)
    fix item :: "RelatedSection \<times> real"
    obtain sec sc where item: "item = (sec, sc)" by (cases item)
    show "item \<in> set (scan_documents cur p (generateSimpleEmbedding t) (extractKeywords t) docs)
      \<longleftrightarrow> item \<in> {(make_section docId doc page sc, sc) | docId doc page sc.
           (docId, doc) \<in> set docs \<and> page \<in> set (pageEmbeddings doc)
           \<and> \<not> (docId = cur \<and> pageNumber page = p)
           \<and> sc = calculateSimilarity (generateSimpleEmbedding t) (embedding page)
                      (extractKeywords t) (page_keywords page)
           \<and> 0.3 < sc}"
      unfolding item scan_documents_item by blast
  qed
qed

text \<open>C2 at the sample engine, for the unknown document \<open>Z\<close> and for the document
  \<open>B\<close>.\<close>

theorem findRelatedSections_query_source_witness:
  "findRelatedSections ''Z'' 1 (Some ''data'') sample_engine = ([], initialize sample_engine)
   \<and> findRelatedSections ''B'' 1 (Some ''data'') sample_engine =
        (top_sections (scan_documents ''B'' 1 (generateSimpleEmbedding ''data'')
                         (extractKeywords ''data'') (documents (initialize sample_engine))),
         initialize sample_engine)"
proof -
  have "map_get (documents (initialize sample_engine)) ''Z'' = None"
    by (simp add: documents_sample_engine)
  moreover have "map_get (documents (initialize sample_engine)) ''B'' \<noteq> None \<and> ''data'' \<noteq> []"
    by (simp add: documents_sample_engine)
  ultimately show ?thesis
    using findRelatedSections_query_source
        [where s = sample_engine and cur = "''Z''" and p = 1 and q = "Some ''data''"]
      findRelatedSections_query_source
        [where s = sample_engine and cur = "''B''" and p = 1 and t = "''data''"]
    by simp
qed

text \<open>
  C2 as the specification states it fails: \<open>Z\<close> is not a document of the sample engine,
  and the result for the selected text \<open>data\<close> is empty, though the search with that text
  over the stored pages finds page 1 of \<open>A\<close> and page 1 of \<open>B\<close>.
\<close>

theorem findRelatedSections_unknown_document_counterexample:
  "map_get (documents (initialize sample_engine)) ''Z'' = None
   \<and> fst (findRelatedSections ''Z'' 1 (Some ''data'') sample_engine) = []
   \<and> map section_id (search_sections (documents (initialize sample_engine)) ''Z'' 1 ''data'')
       = [''A-1'', ''B-1'']"
  by (simp add: search_sample_Z1 findRelatedSections_def Let_def)
     (simp add: documents_sample_engine)

end
